theory Spec2Isabelle
  imports Complex_Main
begin

section \<open>Data model\<close>

text \<open>
  JavaScript numbers are modelled as follows: clock readings (\<^verbatim>\<open>Date.now()\<close>), stored
  timestamps and millisecond durations are \<^typ>\<open>int\<close>; prices, volumes, market caps and
  percentages are \<^typ>\<open>real\<close> (rounding of doubles is not modelled). An optional field
  \<^verbatim>\<open>x?: number\<close> is a \<^typ>\<open>real option\<close>, and \<^verbatim>\<open>x || 0\<close> reads it with default 0.
\<close>

datatype Source = pumpfun | bonk

datatype Tier = tier25 | tier50

record TokenSnapshot =
  timestamp :: int
  price :: real
  marketCap :: real
  volume5m :: real
  volume24h :: real
  liquidity :: real
  priceChange5m :: real
  priceChange24h :: real

text \<open>
  The provider's decimal price text \<^verbatim>\<open>pair.priceUsd\<close>, kept as what \<^verbatim>\<open>parseFloat\<close> and the
  truthiness test make of it: absent (undefined or the empty string), a non-empty text that
  \<^verbatim>\<open>parseFloat\<close> maps to NaN, or a text that parses to a number.
\<close>

datatype PriceText = PriceAbsent | PriceNaN | PriceNum real

record BaseToken =
  address :: string
  symbol :: string
  name :: string

text \<open>
  \<^verbatim>\<open>TokenPair\<close> is the SDK's \<^verbatim>\<open>Pair\<close>; the fields below are the ones the sources read.
  \<^verbatim>\<open>volume_m5\<close> stands for \<^verbatim>\<open>pair.volume?.['m5']\<close>, \<^verbatim>\<open>liquidity_usd\<close> for
  \<^verbatim>\<open>pair.liquidity?.usd\<close>, and so on: \<open>None\<close> when any link of the chain is missing.
\<close>

record TokenPair =
  baseToken :: BaseToken
  pairAddress :: string
  dexId :: "string option"
  priceUsd :: PriceText
  fdv :: "real option"
  volume_m5 :: "real option"
  volume_h24 :: "real option"
  liquidity_usd :: "real option"
  priceChange_m5 :: "real option"
  priceChange_h24 :: "real option"
  pairCreatedAt :: "int option"

record TokenState =
  tokenAddress :: string
  baseTokenSymbol :: string
  baseTokenName :: string
  pairAddress_s :: string
  source :: "Source option"
  createdAt :: "int option"
  firstSeen :: int
  snapshots :: "TokenSnapshot list"
  lastAlertTimestamp :: "Tier \<Rightarrow> int option"
  lastSeenActive :: int
  currentPair :: "TokenPair option"

type_synonym Tokens = "string \<rightharpoonup> TokenState"

section \<open>TokenStateManager (src/data/TokenState.ts, the variant with \<^verbatim>\<open>source\<close>)\<close>

text \<open>
  The file holds two variants of the class. The one modelled is the later one, whose
  \<^verbatim>\<open>updateTokenState\<close> takes the source and whose \<^verbatim>\<open>isDormant\<close> checks volume, drift and
  candles: it is the one \<^verbatim>\<open>SpikeDetector\<close> calls. The store \<^verbatim>\<open>Map<string, TokenState>\<close> is a
  map from addresses to states, passed in and returned by every operation that mutates it.
\<close>

definition maxSnapshotsPerToken :: nat where
  "maxSnapshotsPerToken = 144"

text \<open>\<^verbatim>\<open>x || 0\<close> on an optional number.\<close>

definition orZero :: "real option \<Rightarrow> real" where
  "orZero x = (case x of None \<Rightarrow> 0 | Some v \<Rightarrow> v)"

text \<open>
  \<^verbatim>\<open>updateTokenState(tokenAddress, pair, snapshot, source?)\<close>; \<open>now\<close> is the reading of
  \<^verbatim>\<open>Date.now()\<close>. The state object is created if absent, otherwise its source is
  back-filled when unset; then the pair is replaced, the snapshot pushed, one element
  shifted off the front when the length exceeds the capacity, and the activity stamp moved.
\<close>

definition updateTokenState ::
  "int \<Rightarrow> string \<Rightarrow> TokenPair \<Rightarrow> TokenSnapshot \<Rightarrow> Source option \<Rightarrow> Tokens \<Rightarrow> Tokens" where
  "updateTokenState now addr pair snapshot src tokens =
     (let state0 =
            (case tokens addr of
               None \<Rightarrow>
                 \<lparr> tokenAddress = addr,
                   baseTokenSymbol = symbol (baseToken pair),
                   baseTokenName = name (baseToken pair),
                   pairAddress_s = pairAddress pair,
                   source = src,
                   createdAt = pairCreatedAt pair,
                   firstSeen = now,
                   snapshots = [],
                   lastAlertTimestamp = (\<lambda>_. None),
                   lastSeenActive = now,
                   currentPair = Some pair \<rparr>
             | Some st \<Rightarrow>
                 (if source st = None \<and> src \<noteq> None then st\<lparr>source := src\<rparr> else st));
          state1 = state0\<lparr>currentPair := Some pair\<rparr>;
          state2 = state1\<lparr>snapshots := snapshots state1 @ [snapshot]\<rparr>;
          state3 = (if length (snapshots state2) > maxSnapshotsPerToken
                    then state2\<lparr>snapshots := tl (snapshots state2)\<rparr> else state2);
          state4 = (if volume5m snapshot > 0 \<or> \<bar>priceChange5m snapshot\<bar> > 1
                    then state3\<lparr>lastSeenActive := timestamp snapshot\<rparr> else state3)
      in tokens(addr \<mapsto> state4))"

definition getSnapshotsInWindow :: "int \<Rightarrow> Tokens \<Rightarrow> string \<Rightarrow> int \<Rightarrow> TokenSnapshot list" where
  "getSnapshotsInWindow now tokens addr windowMinutes =
     (case tokens addr of
        None \<Rightarrow> []
      | Some st \<Rightarrow>
          (let cutoffTime = now - windowMinutes * 60 * 1000
           in filter (\<lambda>snapshot. timestamp snapshot \<ge> cutoffTime) (snapshots st)))"

text \<open>The \<^verbatim>\<open>for (let i = 1; i < snapshots.length; i++)\<close> loop of \<^verbatim>\<open>isDormant\<close>.\<close>

function isDormant_loop :: "TokenSnapshot list \<Rightarrow> nat \<Rightarrow> bool" where
  "isDormant_loop snaps i =
     (if i < length snaps then
        (let prevPrice = price (snaps ! (i - 1));
             currPrice = price (snaps ! i);
             candle = (if prevPrice > 0 then ((currPrice - prevPrice) / prevPrice) * 100 else 0)
         in if candle > 10 then False else isDormant_loop snaps (i + 1))
      else True)"
  by pat_completeness auto
termination
  by (relation "measure (\<lambda>(snaps, i). length snaps - i)") auto

declare isDormant_loop.simps [simp del]

definition isDormant :: "int \<Rightarrow> Tokens \<Rightarrow> string \<Rightarrow> real \<Rightarrow> real \<Rightarrow> int \<Rightarrow> bool" where
  "isDormant now tokens addr volatilityThreshold volumeThreshold baselineMinutes =
     (let snaps = getSnapshotsInWindow now tokens addr baselineMinutes
      in if length snaps < 3 then False
         else
           (let totalVolume1h = foldl (\<lambda>sum s. sum + volume5m s) 0 snaps
            in if totalVolume1h \<ge> volumeThreshold then False
               else
                 (let firstPrice = price (snaps ! 0);
                      lastPrice = price (snaps ! (length snaps - 1));
                      priceChange1h =
                        (if firstPrice > 0
                         then \<bar>(lastPrice - firstPrice) / firstPrice\<bar> * 100 else 0)
                  in if priceChange1h \<ge> volatilityThreshold then False
                     else isDormant_loop snaps 1)))"

text \<open>
  \<^verbatim>\<open>recordAlert\<close> stamps the clock reading on the tier of an existing state;
  \<^verbatim>\<open>isInCooldown\<close> treats a missing state, a missing stamp and a falsy stamp (0) alike.
\<close>

definition recordAlert :: "int \<Rightarrow> Tokens \<Rightarrow> string \<Rightarrow> Tier \<Rightarrow> Tokens" where
  "recordAlert now tokens addr tier =
     (case tokens addr of
        None \<Rightarrow> tokens
      | Some st \<Rightarrow> tokens(addr \<mapsto> st\<lparr>lastAlertTimestamp := (lastAlertTimestamp st)(tier \<mapsto> now)\<rparr>))"

definition isInCooldown :: "int \<Rightarrow> Tokens \<Rightarrow> string \<Rightarrow> Tier \<Rightarrow> int \<Rightarrow> bool" where
  "isInCooldown now tokens addr tier cooldownMs =
     (case tokens addr of
        None \<Rightarrow> False
      | Some st \<Rightarrow>
          (case lastAlertTimestamp st tier of
             None \<Rightarrow> False
           | Some t \<Rightarrow>
               (if t = 0 then False
                else (let timeSinceLastAlert = now - t in timeSinceLastAlert < cooldownMs))))"

section \<open>DexScreenerService.getTokenSource (src/services/DexScreenerService.ts)\<close>

text \<open>\<^verbatim>\<open>toLowerCase\<close> on the ASCII letters; \<^verbatim>\<open>includes\<close> as a substring test.\<close>

definition toLowerCase_char :: "char \<Rightarrow> char" where
  "toLowerCase_char c =
     (let n = (of_char c :: nat) in if 65 \<le> n \<and> n \<le> 90 then char_of (n + 32) else c)"

definition toLowerCase :: "string \<Rightarrow> string" where
  "toLowerCase s = map toLowerCase_char s"

fun includes_str :: "string \<Rightarrow> string \<Rightarrow> bool" where
  "includes_str [] sub = (sub = [])"
| "includes_str (c # cs) sub = (take (length sub) (c # cs) = sub \<or> includes_str cs sub)"

definition getTokenSource :: "TokenPair \<Rightarrow> Source option" where
  "getTokenSource pair =
     (let d = toLowerCase (case dexId pair of None \<Rightarrow> [] | Some s \<Rightarrow> s)
      in if includes_str d ''pump'' then Some pumpfun
         else if includes_str d ''bonk'' then Some bonk
         else None)"

definition isFromPumpOrBonk :: "TokenPair \<Rightarrow> bool" where
  "isFromPumpOrBonk pair = (getTokenSource pair \<noteq> None)"

section \<open>Configuration (src/utils/Config.ts)\<close>

text \<open>
  The fields of \<^verbatim>\<open>BotConfig\<close>. \<^verbatim>\<open>minLiquidityUsd\<close> is read by \<^verbatim>\<open>meetsBasicCriteria\<close> and
  \<^verbatim>\<open>filterEligiblePairs\<close> as \<^verbatim>\<open>this.config.minLiquidityUsd\<close>; the declaration of
  \<^verbatim>\<open>BotConfig\<close> at hand does not list it, so it is a field here like the others.
\<close>

record BotConfig =
  alertThreshold25 :: bool
  alertThreshold50 :: bool
  minTokenAgeHours :: real
  maxMarketCap :: real
  isPaused :: bool
  pollingIntervalMs :: int
  dormantVolatilityThreshold :: real
  dormantVolumeThreshold :: real
  baselinePeriodMinutes :: int
  alertCooldownMs :: int
  minLiquidityUsd :: real

section \<open>SpikeDetector (src/data/TokenState.ts)\<close>

record SpikeAlert =
  tokenAddress_a :: string
  baseTokenSymbol_a :: string
  baseTokenName_a :: string
  pair_a :: TokenPair
  source_a :: Source
  tokenAgeHours :: real
  priceChange5m_a :: real
  tier :: Tier
  currentPrice :: real
  marketCap_a :: real
  volume5m_a :: real
  liquidity_a :: real
  timestamp_a :: int

text \<open>\<^verbatim>\<open>parseFloat(pair.priceUsd) || 0\<close>: NaN and 0 both give 0.\<close>

definition priceOrZero :: "PriceText \<Rightarrow> real" where
  "priceOrZero p = (case p of PriceAbsent \<Rightarrow> 0 | PriceNaN \<Rightarrow> 0 | PriceNum r \<Rightarrow> r)"

definition meetsBasicCriteria :: "BotConfig \<Rightarrow> TokenPair \<Rightarrow> bool" where
  "meetsBasicCriteria cfg pair =
     (let marketCap' = orZero (fdv pair)
      in if marketCap' \<ge> maxMarketCap cfg \<or> marketCap' = 0 then False
         else if (case priceUsd pair of
                    PriceAbsent \<Rightarrow> True       \<comment> \<open>\<^verbatim>\<open>parseFloat('0') <= 0\<close>\<close>
                  | PriceNaN \<Rightarrow> False         \<comment> \<open>\<^verbatim>\<open>NaN <= 0\<close> is false\<close>
                  | PriceNum r \<Rightarrow> r \<le> 0) then False
         else (let liquidity' = orZero (liquidity_usd pair)
               in if liquidity' < minLiquidityUsd cfg then False else True))"

text \<open>The snapshot \<^verbatim>\<open>checkForSpike\<close> creates from the current pair data.\<close>

definition createSnapshot :: "int \<Rightarrow> TokenPair \<Rightarrow> TokenSnapshot" where
  "createSnapshot now pair =
     \<lparr> timestamp = now,
       price = priceOrZero (priceUsd pair),
       marketCap = orZero (fdv pair),
       volume5m = orZero (volume_m5 pair),
       volume24h = orZero (volume_h24 pair),
       liquidity = orZero (liquidity_usd pair),
       priceChange5m = orZero (priceChange_m5 pair),
       priceChange24h = orZero (priceChange_h24 pair) \<rparr>"

text \<open>
  \<^verbatim>\<open>checkForSpike(pair)\<close>: the result is the alert (or \<^verbatim>\<open>null\<close>) together with the token
  states it leaves behind. \<open>now\<close> is the clock reading of this evaluation, which is
  synchronous.
\<close>

definition checkForSpike ::
  "BotConfig \<Rightarrow> int \<Rightarrow> TokenPair \<Rightarrow> Tokens \<Rightarrow> SpikeAlert option \<times> Tokens" where
  "checkForSpike cfg now pair tokens =
     (let addr = address (baseToken pair)
      in case getTokenSource pair of
           None \<Rightarrow> (None, tokens)
         | Some src \<Rightarrow>
             (let snapshot = createSnapshot now pair;
                  tokens1 = updateTokenState now addr pair snapshot (Some src) tokens
              in if \<not> meetsBasicCriteria cfg pair then (None, tokens1)
                 else
                   (let wasDormant =
                          isDormant now tokens1 addr (dormantVolatilityThreshold cfg)
                            (dormantVolumeThreshold cfg) (baselinePeriodMinutes cfg)
                    in if \<not> wasDormant then (None, tokens1)
                       else
                         (let pc = priceChange5m snapshot;
                              selected =
                                (if alertThreshold50 cfg \<and> pc \<ge> 50 \<and>
                                    \<not> isInCooldown now tokens1 addr tier50 (alertCooldownMs cfg)
                                 then Some tier50
                                 else if alertThreshold25 cfg \<and> pc \<ge> 25 \<and> pc < 50 \<and>
                                    \<not> isInCooldown now tokens1 addr tier25 (alertCooldownMs cfg)
                                 then Some tier25
                                 else None)
                          in case selected of
                               None \<Rightarrow> (None, tokens1)
                             | Some t \<Rightarrow>
                                 (let tokens2 = recordAlert now tokens1 addr t;
                                      age = (case pairCreatedAt pair of
                                               None \<Rightarrow> 0
                                             | Some c \<Rightarrow>
                                                 (if c = 0 then 0
                                                  else real_of_int (now - c) / (1000 * 60 * 60)))
                                  in (Some \<lparr> tokenAddress_a = addr,
                                             baseTokenSymbol_a = symbol (baseToken pair),
                                             baseTokenName_a = name (baseToken pair),
                                             pair_a = pair,
                                             source_a = src,
                                             tokenAgeHours = age,
                                             priceChange5m_a = pc,
                                             tier = t,
                                             currentPrice = price snapshot,
                                             marketCap_a = marketCap snapshot,
                                             volume5m_a = volume5m snapshot,
                                             liquidity_a = liquidity snapshot,
                                             timestamp_a = timestamp snapshot \<rparr>,
                                      tokens2))))))"

text \<open>
  \<^verbatim>\<open>checkMultiplePairs\<close>: the pairs are evaluated in order, each with the clock reading of
  its own evaluation, and the alerts are collected in order.
\<close>

fun checkMultiplePairs ::
  "BotConfig \<Rightarrow> (int \<times> TokenPair) list \<Rightarrow> Tokens \<Rightarrow> SpikeAlert list \<times> Tokens" where
  "checkMultiplePairs cfg [] tokens = ([], tokens)"
| "checkMultiplePairs cfg ((now, pair) # rest) tokens =
     (case checkForSpike cfg now pair tokens of
        (alert, tokens1) \<Rightarrow>
          (case checkMultiplePairs cfg rest tokens1 of
             (alerts, tokens2) \<Rightarrow>
               ((case alert of None \<Rightarrow> alerts | Some a \<Rightarrow> a # alerts), tokens2)))"

section \<open>TokenUniverseManager (src/data/TokenState.ts, the variant with the liquidity floor)\<close>

definition filterEligiblePairs :: "BotConfig \<Rightarrow> int \<Rightarrow> TokenPair list \<Rightarrow> TokenPair list" where
  "filterEligiblePairs cfg now pairs =
     filter (\<lambda>pair.
        (let marketCap' = orZero (fdv pair)
         in if marketCap' \<ge> maxMarketCap cfg \<or> marketCap' = 0 then False
            else if \<not> isFromPumpOrBonk pair then False
            else if (case priceUsd pair of
                       PriceAbsent \<Rightarrow> True
                     | PriceNaN \<Rightarrow> False
                     | PriceNum r \<Rightarrow> r \<le> 0) then False
            else if orZero (liquidity_usd pair) < minLiquidityUsd cfg then False
            else (case pairCreatedAt pair of
                    None \<Rightarrow> True
                  | Some c \<Rightarrow>
                      (if c = 0 then True
                       else (let ageHours = real_of_int (now - c) / (1000 * 60 * 60)
                             in if ageHours < minTokenAgeHours cfg then False else True))))) pairs"

text \<open>
  \<^verbatim>\<open>updateTokenEligibility(tokenAddress)\<close> on the manager's \<^verbatim>\<open>trackedTokens\<close> set.
  \<open>fetched\<close> is the outcome of \<^verbatim>\<open>getTokenPairs(tokenAddress)\<close>: \<open>Inl\<close> when the fetch
  throws (the \<^verbatim>\<open>catch\<close> branch), \<open>Inr\<close> the pairs otherwise.
\<close>

datatype FetchError = FetchError string

definition updateTokenEligibility ::
  "BotConfig \<Rightarrow> int \<Rightarrow> FetchError + TokenPair list \<Rightarrow> string \<Rightarrow> string set \<Rightarrow> bool \<times> string set" where
  "updateTokenEligibility cfg now fetched addr trackedTokens =
     (case fetched of
        Inl err \<Rightarrow> (False, trackedTokens)
      | Inr pairs \<Rightarrow>
          (let eligiblePairs = filterEligiblePairs cfg now pairs
           in if length eligiblePairs > 0
              then (True, if addr \<notin> trackedTokens then insert addr trackedTokens else trackedTokens)
              else (False, trackedTokens - {addr})))"

text \<open>
  The service (src/services/SpikeDetectionService.ts) owns one universe manager and one
  state manager; its discovery cycle calls \<^verbatim>\<open>updateTokenEligibility\<close> for every tracked
  address, counting the ones that are no longer eligible.
\<close>

record Service =
  tokenUniverseManager :: "string set"
  tokenStateManager :: Tokens

definition service_updateTokenEligibility ::
  "BotConfig \<Rightarrow> int \<Rightarrow> FetchError + TokenPair list \<Rightarrow> string \<Rightarrow> Service \<Rightarrow> bool \<times> Service" where
  "service_updateTokenEligibility cfg now fetched addr svc =
     (case updateTokenEligibility cfg now fetched addr (tokenUniverseManager svc) of
        (stillEligible, tracked) \<Rightarrow> (stillEligible, svc\<lparr>tokenUniverseManager := tracked\<rparr>))"

fun revalidateTokens ::
  "BotConfig \<Rightarrow> int \<Rightarrow> (string \<Rightarrow> FetchError + TokenPair list) \<Rightarrow> string list \<Rightarrow> Service \<Rightarrow> nat \<times> Service" where
  "revalidateTokens cfg now fetch [] svc = (0, svc)"
| "revalidateTokens cfg now fetch (addr # rest) svc =
     (case service_updateTokenEligibility cfg now (fetch addr) addr svc of
        (stillEligible, svc1) \<Rightarrow>
          (case revalidateTokens cfg now fetch rest svc1 of
             (updatedCount, svc2) \<Rightarrow>
               ((if \<not> stillEligible then updatedCount + 1 else updatedCount), svc2)))"

section \<open>ErrorHandler.retry (src/utils/ErrorHandler.ts)\<close>

text \<open>
  The operation \<^verbatim>\<open>fn\<close> is effectful: \<open>fn n\<close> is the outcome of its \<open>n\<close>-th invocation
  (\<open>Inl\<close> the thrown error). The loop invokes it once per attempt, so the invocation
  number is the attempt number. What the loop does is recorded as a trace of effects: each
  invocation, each call of the \<^verbatim>\<open>onError\<close> hook (when supplied; it is a logging callback
  that returns normally) and each backoff sleep. \<open>maxRetries\<close> is a count.
\<close>

datatype 'e Effect = Invoke nat | OnError 'e nat | Delay int

datatype 'e RetryFailure = Thrown 'e | UnknownError

function retry_loop ::
  "(nat \<Rightarrow> 'e + 'a) \<Rightarrow> nat \<Rightarrow> int \<Rightarrow> bool \<Rightarrow> nat \<Rightarrow> 'e option
     \<Rightarrow> ('e RetryFailure + 'a) \<times> 'e Effect list" where
  "retry_loop fn maxRetries initialDelayMs onError attempt lastError =
     (if attempt \<le> maxRetries then
        (case fn attempt of
           Inr v \<Rightarrow> (Inr v, [Invoke attempt])
         | Inl error \<Rightarrow>
             (case retry_loop fn maxRetries initialDelayMs onError (attempt + 1) (Some error) of
                (result, later) \<Rightarrow>
                  (result,
                   [Invoke attempt]
                   @ (if onError then [OnError error attempt] else [])
                   @ (if attempt < maxRetries
                      then [Delay (initialDelayMs * 2 ^ (attempt - 1))] else [])
                   @ later)))
      else (Inl (case lastError of None \<Rightarrow> UnknownError | Some e \<Rightarrow> Thrown e), []))"
  by pat_completeness auto
termination
  by (relation "measure (\<lambda>(fn, maxRetries, initialDelayMs, onError, attempt, lastError).
        maxRetries + 1 - attempt)") auto

declare retry_loop.simps [simp del]

definition retry ::
  "(nat \<Rightarrow> 'e + 'a) \<Rightarrow> nat \<Rightarrow> int \<Rightarrow> bool \<Rightarrow> ('e RetryFailure + 'a) \<times> 'e Effect list" where
  "retry fn maxRetries initialDelayMs onError =
     retry_loop fn maxRetries initialDelayMs onError 1 None"

section \<open>Notions used to state the properties\<close>

text \<open>
  The percentage step between two adjacent snapshots and the percentage drift over a
  window, as \<^verbatim>\<open>isDormant\<close> computes them: a reference price that is not positive
  contributes 0.
\<close>

definition stepPct :: "real \<Rightarrow> real \<Rightarrow> real" where
  "stepPct prevPrice currPrice =
     (if prevPrice > 0 then ((currPrice - prevPrice) / prevPrice) * 100 else 0)"

definition driftPct :: "real \<Rightarrow> real \<Rightarrow> real" where
  "driftPct firstPrice lastPrice =
     (if firstPrice > 0 then \<bar>lastPrice - firstPrice\<bar> / firstPrice * 100 else 0)"

text \<open>
  The dormancy predicate in the specification's words: at least 3 snapshots, cumulative
  \<open>volume5m\<close> strictly below the volume threshold, \<open>|last - first| / first \<times> 100\<close>
  strictly below the volatility threshold, and \<open>(curr - prev) / prev \<times> 100 \<le> 10\<close> for every
  consecutive pair. A percentage of a zero reference price does not exist (\<open>None\<close>; in the
  program's arithmetic \<^verbatim>\<open>1 / 0\<close> is \<^verbatim>\<open>Infinity\<close> and \<^verbatim>\<open>0 / 0\<close> is \<^verbatim>\<open>NaN\<close>), and a bound on
  a percentage that does not exist does not hold.
\<close>

definition spec_pct :: "real \<Rightarrow> real \<Rightarrow> real option" where
  "spec_pct num den = (if den = 0 then None else Some (num / den * 100))"

definition spec_isDormant :: "TokenSnapshot list \<Rightarrow> real \<Rightarrow> real \<Rightarrow> bool" where
  "spec_isDormant w volatilityThreshold volumeThreshold =
     (3 \<le> length w \<and>
      sum_list (map volume5m w) < volumeThreshold \<and>
      (case spec_pct \<bar>price (last w) - price (hd w)\<bar> (price (hd w)) of
         None \<Rightarrow> False | Some d \<Rightarrow> d < volatilityThreshold) \<and>
      list_all (\<lambda>(prev, curr).
         case spec_pct (price curr - price prev) (price prev) of
           None \<Rightarrow> False | Some c \<Rightarrow> c \<le> 10) (zip w (tl w)))"

text \<open>The alert stamp stored for an address and tier, if any.\<close>

definition lastAlertOf :: "Tokens \<Rightarrow> string \<Rightarrow> Tier \<Rightarrow> int option" where
  "lastAlertOf tokens addr t =
     (case tokens addr of None \<Rightarrow> None | Some st \<Rightarrow> lastAlertTimestamp st t)"

text \<open>Any sequence of \<^verbatim>\<open>updateTokenState\<close> calls, each with its clock reading and arguments.\<close>

fun updateTokenStates ::
  "(int \<times> string \<times> TokenPair \<times> TokenSnapshot \<times> Source option) list \<Rightarrow> Tokens \<Rightarrow> Tokens" where
  "updateTokenStates [] tokens = tokens"
| "updateTokenStates ((now, addr, pair, snapshot, src) # rest) tokens =
     updateTokenStates rest (updateTokenState now addr pair snapshot src tokens)"

text \<open>The effects of a failed attempt of \<^verbatim>\<open>retry\<close>: with a backoff sleep, and the last one without.\<close>

definition failedAttempt :: "(nat \<Rightarrow> 'e + 'a) \<Rightarrow> int \<Rightarrow> bool \<Rightarrow> nat \<Rightarrow> 'e Effect list" where
  "failedAttempt fn initialDelayMs onError i =
     [Invoke i] @ (if onError then [OnError (projl (fn i)) i] else [])
     @ [Delay (initialDelayMs * 2 ^ (i - 1))]"

definition lastFailedAttempt :: "(nat \<Rightarrow> 'e + 'a) \<Rightarrow> bool \<Rightarrow> nat \<Rightarrow> 'e Effect list" where
  "lastFailedAttempt fn onError i =
     [Invoke i] @ (if onError then [OnError (projl (fn i)) i] else [])"

section \<open>Concrete scenarios\<close>

definition exampleSnapshot :: "int \<Rightarrow> real \<Rightarrow> real \<Rightarrow> TokenSnapshot" where
  "exampleSnapshot t p v =
     \<lparr> timestamp = t, price = p, marketCap = 40000, volume5m = v, volume24h = 0,
       liquidity = 5000, priceChange5m = 0, priceChange24h = 0 \<rparr>"

definition exampleState :: "TokenSnapshot list \<Rightarrow> TokenState" where
  "exampleState snaps =
     \<lparr> tokenAddress = ''tok'', baseTokenSymbol = ''TOK'', baseTokenName = ''Token'',
       pairAddress_s = ''pair'', source = Some pumpfun, createdAt = None, firstSeen = 0,
       snapshots = snaps, lastAlertTimestamp = (\<lambda>_. None), lastSeenActive = 0,
       currentPair = None \<rparr>"

text \<open>
  A window that starts at price 0 and then trades at 1 (a record without a parseable price
  is stored with price 0), and a window of negative prices.
\<close>

definition zeroStartTokens :: Tokens where
  "zeroStartTokens =
     [''tok'' \<mapsto> exampleState
        [exampleSnapshot 1000 0 0, exampleSnapshot 2000 1 0, exampleSnapshot 3000 1 0]]"

definition negativeTokens :: Tokens where
  "negativeTokens =
     [''tok'' \<mapsto> exampleState
        [exampleSnapshot 1000 (- 1) 0, exampleSnapshot 2000 (- 2) 0, exampleSnapshot 3000 (- 1) 0]]"

text \<open>A window of zero prices with some volume.\<close>

definition allZeroTokens :: Tokens where
  "allZeroTokens =
     [''tok'' \<mapsto> exampleState
        [exampleSnapshot 1000 0 100, exampleSnapshot 2000 0 100, exampleSnapshot 3000 0 100]]"

text \<open>An operation that times out twice and then succeeds, and one that always fails.\<close>

definition flakyOp :: "nat \<Rightarrow> string + nat" where
  "flakyOp n = (if n < 3 then Inl ''timeout'' else Inr 7)"

definition brokenOp :: "nat \<Rightarrow> string + nat" where
  "brokenOp n = (if n = 1 then Inl ''first'' else Inl ''second'')"

text \<open>
  The defaults of \<^verbatim>\<open>Config\<close> (market-cap ceiling and liquidity floor as in the requirements),
  a token that has been quiet for an hour, and the provider record of its next poll.
\<close>

definition exampleConfig :: BotConfig where
  "exampleConfig =
     \<lparr> alertThreshold25 = True, alertThreshold50 = True, minTokenAgeHours = 1,
       maxMarketCap = 100000, isPaused = False, pollingIntervalMs = 10000,
       dormantVolatilityThreshold = 5, dormantVolumeThreshold = 1000,
       baselinePeriodMinutes = 60, alertCooldownMs = 1800000, minLiquidityUsd = 2000 \<rparr>"

definition quietTokens :: Tokens where
  "quietTokens =
     [''tok'' \<mapsto> exampleState
        [exampleSnapshot 600000 1 100, exampleSnapshot 1200000 1 50,
         exampleSnapshot 1800000 1.01 50, exampleSnapshot 2400000 1.01 100,
         exampleSnapshot 3000000 1.02 50, exampleSnapshot 3500000 1.02 50]]"

definition spikePair :: "string option \<Rightarrow> real \<Rightarrow> real \<Rightarrow> real \<Rightarrow> real \<Rightarrow> TokenPair" where
  "spikePair dex usd change liq vol =
     \<lparr> baseToken = \<lparr> address = ''tok'', symbol = ''TOK'', name = ''Token'' \<rparr>,
       pairAddress = ''pair'', dexId = dex, priceUsd = PriceNum usd,
       fdv = Some 40000, volume_m5 = Some vol, volume_h24 = None,
       liquidity_usd = Some liq, priceChange_m5 = Some change, priceChange_h24 = None,
       pairCreatedAt = None \<rparr>"

text \<open>
  The quiet token's next provider record, verified as Pump.fun, at price 1.02 with the
  given 5-minute change; the evaluation at minute 60, and two later ones at minutes 62 and 91.
\<close>

definition scenarioPair :: "real \<Rightarrow> TokenPair" where
  "scenarioPair change = spikePair (Some ''pumpfun'') 1.02 change 5000 0"

definition firstEval :: "SpikeAlert option \<times> Tokens" where
  "firstEval = checkForSpike exampleConfig 3600000 (scenarioPair 30) quietTokens"

definition laterEvals :: "SpikeAlert list \<times> Tokens" where
  "laterEvals = checkMultiplePairs exampleConfig
      [(3720000, scenarioPair 30), (5460000, scenarioPair 30)] (snd firstEval)"

text \<open>A genuine breakout: the price has moved from 1.02 to 1.30 and the provider reports +30 percent.\<close>

definition breakoutPair :: TokenPair where
  "breakoutPair = spikePair (Some ''pumpfun'') 1.30 30 5000 0"

text \<open>The same record as the first scenario with liquidity 1500, below the floor of 2000.\<close>

definition thinPair :: TokenPair where
  "thinPair = spikePair (Some ''pumpfun'') 1.02 30 1500 0"

text \<open>Records whose venue hint resolves to no permitted origin, and to the other origin.\<close>

definition unverifiedPair :: TokenPair where
  "unverifiedPair = spikePair (Some ''raydium'') 1.30 80 5000 0"

definition bonkPair :: TokenPair where
  "bonkPair = spikePair (Some ''bonk'') 1.02 30 5000 0"

text \<open>An empty store sees an unverified record, a verified one and an unverified one again.\<close>

definition firstSightings :: "(int \<times> TokenPair) list" where
  "firstSightings = [(1000, unverifiedPair), (2000, scenarioPair 80), (3000, unverifiedPair)]"

text \<open>The snapshot sequence stored for an address (empty when there is no state).\<close>

definition storedSnapshots :: "Tokens \<Rightarrow> string \<Rightarrow> TokenSnapshot list" where
  "storedSnapshots tokens addr = (case tokens addr of None \<Rightarrow> [] | Some st \<Rightarrow> snapshots st)"

text \<open>A state at capacity, and two first updates of an empty store.\<close>

definition fullTokens :: Tokens where
  "fullTokens =
     [''tok'' \<mapsto> exampleState (map (\<lambda>i. exampleSnapshot (int i * 1000) 1 0) [0..<144])]"

definition twoUpdates :: "(int \<times> string \<times> TokenPair \<times> TokenSnapshot \<times> Source option) list" where
  "twoUpdates =
     [(1000, ''tok'', scenarioPair 0, exampleSnapshot 1000 1 0, Some pumpfun),
      (2000, ''tok'', scenarioPair 0, exampleSnapshot 2000 1 0, Some pumpfun)]"

text \<open>A service tracking two addresses, with the quiet token's state.\<close>

definition exampleService :: Service where
  "exampleService = \<lparr> tokenUniverseManager = {''tok'', ''other''}, tokenStateManager = quietTokens \<rparr>"

text \<open>Every stored state has a source.\<close>

definition sourced :: "Tokens \<Rightarrow> bool" where
  "sourced tokens = (\<forall>addr st. tokens addr = Some st \<longrightarrow> source st \<noteq> None)"

section \<open>Dormancy classification\<close>

lemma foldl_volume: "foldl (\<lambda>sum s. sum + f s) a xs = a + sum_list (map f xs)"
  by (induction xs arbitrary: a) (simp_all add: add.assoc)

lemma isDormant_loop_iff:
  "isDormant_loop snaps i =
     (\<forall>j. i \<le> j \<and> j < length snaps \<longrightarrow> stepPct (price (snaps ! (j - 1))) (price (snaps ! j)) \<le> 10)"
proof (induction snaps i rule: isDormant_loop.induct)
  case (1 snaps i)
  show ?case
  proof (cases "i < length snaps")
    case False
    then show ?thesis by (simp add: isDormant_loop.simps [of snaps i])
  next
    case True
    show ?thesis
    proof (cases "stepPct (price (snaps ! (i - 1))) (price (snaps ! i)) > 10")
      case big: True
      then have "isDormant_loop snaps i = False"
        using True by (simp add: isDormant_loop.simps [of snaps i] stepPct_def Let_def)
      moreover have "\<not> (\<forall>j. i \<le> j \<and> j < length snaps \<longrightarrow> stepPct (price (snaps ! (j - 1))) (price (snaps ! j)) \<le> 10)"
        using True big by (metis le_refl not_le)
      ultimately show ?thesis by simp
    next
      case small: False
      then have "isDormant_loop snaps i = isDormant_loop snaps (i + 1)"
        using True by (simp add: isDormant_loop.simps [of snaps i] stepPct_def Let_def)
      also have "\<dots> = (\<forall>j. i + 1 \<le> j \<and> j < length snaps \<longrightarrow> stepPct (price (snaps ! (j - 1))) (price (snaps ! j)) \<le> 10)"
        using "1.IH" True small by (simp add: stepPct_def)
      also have "\<dots> = (\<forall>j. i \<le> j \<and> j < length snaps \<longrightarrow> stepPct (price (snaps ! (j - 1))) (price (snaps ! j)) \<le> 10)"
        using small by (metis Suc_eq_plus1 Suc_leI le_neq_implies_less not_le Suc_le_eq nat_less_le)
      finally show ?thesis .
    qed
  qed
qed

lemma adjacent_pairs:
  "(\<forall>(prev, curr) \<in> set (zip w (tl w)). P prev curr) =
     (\<forall>j. 1 \<le> j \<and> j < length w \<longrightarrow> P (w ! (j - 1)) (w ! j))"
proof
  assume L: "\<forall>(prev, curr) \<in> set (zip w (tl w)). P prev curr"
  show "\<forall>j. 1 \<le> j \<and> j < length w \<longrightarrow> P (w ! (j - 1)) (w ! j)"
  proof (intro allI impI)
    fix j assume j: "1 \<le> j \<and> j < length w"
    then obtain k where k: "j = Suc k" by (cases j) auto
    with j have len: "k < length (zip w (tl w))" by auto
    then have "zip w (tl w) ! k \<in> set (zip w (tl w))" by (rule nth_mem)
    moreover have "zip w (tl w) ! k = (w ! k, w ! Suc k)"
      using len by (simp add: nth_tl)
    ultimately show "P (w ! (j - 1)) (w ! j)" using L k by auto
  qed
next
  assume R: "\<forall>j. 1 \<le> j \<and> j < length w \<longrightarrow> P (w ! (j - 1)) (w ! j)"
  show "\<forall>(prev, curr) \<in> set (zip w (tl w)). P prev curr"
  proof (clarify)
    fix a b assume "(a, b) \<in> set (zip w (tl w))"
    then obtain i where i: "i < length (zip w (tl w))" "zip w (tl w) ! i = (a, b)"
      by (auto simp: in_set_conv_nth)
    then have "a = w ! i" "b = w ! (i + 1)" "i + 1 < length w"
      by (auto simp: nth_tl)
    then show "P a b" using R [rule_format, of "i + 1"] by simp
  qed
qed

lemma isDormant_window:
  "isDormant now tokens addr vt volT base =
     (let w = getSnapshotsInWindow now tokens addr base
      in 3 \<le> length w \<and>
         sum_list (map volume5m w) < volT \<and>
         driftPct (price (hd w)) (price (last w)) < vt \<and>
         (\<forall>(prev, curr) \<in> set (zip w (tl w)). stepPct (price prev) (price curr) \<le> 10))"
proof -
  define w where "w = getSnapshotsInWindow now tokens addr base"
  show ?thesis
  proof (cases "3 \<le> length w")
    case False
    then show ?thesis by (simp add: isDormant_def w_def [symmetric] Let_def)
  next
    case True
    then have ne: "w \<noteq> []" by auto
    have hd: "w ! 0 = hd w" using ne by (simp add: hd_conv_nth)
    have lst: "w ! (length w - 1) = last w" using ne by (simp add: last_conv_nth)
    have drift: "(if price (hd w) > 0 then \<bar>(price (last w) - price (hd w)) / price (hd w)\<bar> * 100 else 0)
                   = driftPct (price (hd w)) (price (last w))"
      by (simp add: driftPct_def abs_divide)
    show ?thesis
      using True
      by (simp add: isDormant_def w_def [symmetric] Let_def foldl_volume hd lst drift
            isDormant_loop_iff adjacent_pairs not_le not_less del: One_nat_def)
  qed
qed

lemma window_butlast:
  assumes "(p, c) \<in> set (zip w (tl w))"
  shows "p \<in> set (butlast w)"
proof -
  from assms obtain i where i: "i < length (zip w (tl w))" "zip w (tl w) ! i = (p, c)"
    by (auto simp: in_set_conv_nth)
  then have "i < length (butlast w)" "p = w ! i" by auto
  then show ?thesis by (metis nth_butlast nth_mem)
qed

text \<open>
  Claim C4, as amended. \<^verbatim>\<open>isDormant\<close> answers not-dormant for every window of fewer than
  3 snapshots; for a window of at least 3 snapshots it answers dormant exactly when the
  cumulative \<open>volume5m\<close> is strictly below the volume threshold, the drift is strictly below
  the volatility threshold, and no consecutive pair steps by more than 10 percent, where
  the drift is \<open>|last - first| / first \<times> 100\<close> if the first price is positive and 0
  otherwise, and the step is \<open>(curr - prev) / prev \<times> 100\<close> if the previous price is positive
  and 0 otherwise.
\<close>

theorem isDormant_guarded_iff:
  "isDormant now tokens addr volatilityThreshold volumeThreshold baselineMinutes =
     (let w = getSnapshotsInWindow now tokens addr baselineMinutes
      in 3 \<le> length w \<and>
         sum_list (map volume5m w) < volumeThreshold \<and>
         driftPct (price (hd w)) (price (last w)) < volatilityThreshold \<and>
         (\<forall>(prev, curr) \<in> set (zip w (tl w)). stepPct (price prev) (price curr) \<le> 10))"
  by (rule isDormant_window)

text \<open>
  The amended statement at the quiet token: six snapshots in the hour before 3600000,
  cumulative volume 400, prices from 1.00 to 1.02.
\<close>

theorem isDormant_guarded_iff_witness:
  "isDormant 3600000 quietTokens ''tok'' 5 1000 60"
  using isDormant_guarded_iff [of 3600000 quietTokens "''tok''" 5 1000 60]
  by (simp add: quietTokens_def exampleState_def exampleSnapshot_def getSnapshotsInWindow_def
        driftPct_def stepPct_def)

text \<open>
  Claim C4, as stated, fails on windows whose reference prices are not positive. With
  prices 0, 1, 1 and no volume the percentage drift from a price of 0 does not exist, so
  the stated conditions do not all hold, yet \<^verbatim>\<open>isDormant\<close> answers dormant. With prices
  -1, -2, -1 the stated step from -1 to -2 is +100 percent, above 10, and again
  \<^verbatim>\<open>isDormant\<close> answers dormant.
\<close>

theorem isDormant_unguarded_counterexample:
  "isDormant 3000 zeroStartTokens ''tok'' 5 500 60
   \<and> \<not> spec_isDormant (getSnapshotsInWindow 3000 zeroStartTokens ''tok'' 60) 5 500
   \<and> isDormant 3000 negativeTokens ''tok'' 5 500 60
   \<and> \<not> spec_isDormant (getSnapshotsInWindow 3000 negativeTokens ''tok'' 60) 5 500"
  by (simp add: isDormant_window zeroStartTokens_def negativeTokens_def exampleState_def
        exampleSnapshot_def getSnapshotsInWindow_def spec_isDormant_def spec_pct_def
        driftPct_def stepPct_def)

text \<open>
  Claim C10. \<^verbatim>\<open>isDormant\<close> is a total function (the loop terminates), and prices of 0 raise
  nothing: in a window of at least 3 snapshots with qualifying volume and a positive
  volatility threshold, if every snapshot but the last has price 0 then the drift and
  every step count as 0 and the window is dormant, whatever the last price is; in
  particular a window of all-zero prices is dormant.
\<close>

theorem isDormant_zero_prices:
  assumes "w = getSnapshotsInWindow now tokens addr baselineMinutes"
    and "3 \<le> length w"
    and "sum_list (map volume5m w) < volumeThreshold"
    and "0 < volatilityThreshold"
  shows "((\<forall>s \<in> set (butlast w). price s = 0) \<longrightarrow>
            isDormant now tokens addr volatilityThreshold volumeThreshold baselineMinutes)
       \<and> ((\<forall>s \<in> set w. price s = 0) \<longrightarrow>
            isDormant now tokens addr volatilityThreshold volumeThreshold baselineMinutes)"
proof -
  have main: "isDormant now tokens addr volatilityThreshold volumeThreshold baselineMinutes"
    if z: "\<forall>s \<in> set (butlast w). price s = 0"
  proof -
    from assms(2) have "butlast w \<noteq> []" by (cases w) auto
    then have "hd (butlast w) \<in> set (butlast w)" by simp
    moreover have "hd (butlast w) = hd w" using assms(2) by (cases w) auto
    ultimately have "price (hd w) = 0" using z by auto
    then have drift: "driftPct (price (hd w)) (price (last w)) = 0"
      by (simp add: driftPct_def)
    have steps: "\<forall>(prev, curr) \<in> set (zip w (tl w)). stepPct (price prev) (price curr) \<le> 10"
    proof (clarify)
      fix p c assume "(p, c) \<in> set (zip w (tl w))"
      then have "p \<in> set (butlast w)" by (rule window_butlast)
      with z have "price p = 0" by simp
      then show "stepPct (price p) (price c) \<le> 10" by (simp add: stepPct_def)
    qed
    show ?thesis
      using assms drift steps by (simp add: isDormant_window Let_def)
  qed
  moreover have "\<forall>s \<in> set (butlast w). price s = 0" if "\<forall>s \<in> set w. price s = 0"
    using that by (meson in_set_butlastD)
  ultimately show ?thesis by blast
qed

theorem isDormant_zero_prices_witness:
  "isDormant 3000 allZeroTokens ''tok'' 5 500 60"
proof -
  have w: "getSnapshotsInWindow 3000 allZeroTokens ''tok'' 60 =
      [exampleSnapshot 1000 0 100, exampleSnapshot 2000 0 100, exampleSnapshot 3000 0 100]"
    by (simp add: allZeroTokens_def exampleState_def exampleSnapshot_def getSnapshotsInWindow_def)
  show ?thesis
    using isDormant_zero_prices [OF w [symmetric], of 500 5]
    by (simp add: exampleSnapshot_def)
qed

section \<open>Retry with exponential backoff\<close>

lemma retry_loop_success:
  "a \<le> k \<Longrightarrow> k \<le> maxRetries \<Longrightarrow> (\<forall>i. a \<le> i \<and> i < k \<longrightarrow> isl (fn i)) \<Longrightarrow> fn k = Inr v \<Longrightarrow>
     retry_loop fn maxRetries d h a le =
       (Inr v, concat (map (failedAttempt fn d h) [a..<k]) @ [Invoke k])"
proof (induction "k - a" arbitrary: a le)
  case 0
  then have "a = k" by simp
  with 0 show ?case by (simp add: retry_loop.simps [of fn maxRetries d h k])
next
  case (Suc n)
  then have lt: "a < k" and n: "n = k - (a + 1)" by auto
  from Suc.prems lt obtain e where e: "fn a = Inl e" by (cases "fn a") auto
  have step: "retry_loop fn maxRetries d h (a + 1) (Some e) =
      (Inr v, concat (map (failedAttempt fn d h) [a + 1..<k]) @ [Invoke k])"
    using Suc.hyps(1) [OF n, of "Some e"] Suc.prems lt by simp
  have "a \<le> maxRetries" "a < maxRetries" using lt Suc.prems by auto
  then show ?case
    using e step lt
    by (simp add: retry_loop.simps [of fn maxRetries d h a] upt_conv_Cons failedAttempt_def)
qed

lemma retry_loop_exhausted:
  "a \<le> maxRetries \<Longrightarrow> (\<forall>i. a \<le> i \<and> i \<le> maxRetries \<longrightarrow> isl (fn i)) \<Longrightarrow>
     retry_loop fn maxRetries d h a le =
       (Inl (Thrown (projl (fn maxRetries))),
        concat (map (failedAttempt fn d h) [a..<maxRetries]) @ lastFailedAttempt fn h maxRetries)"
proof (induction "maxRetries - a" arbitrary: a le)
  case 0
  then have a: "a = maxRetries" by simp
  from 0 a obtain e where e: "fn maxRetries = Inl e" by (cases "fn maxRetries") auto
  have "retry_loop fn maxRetries d h (maxRetries + 1) (Some e) = (Inl (Thrown e), [])"
    by (subst retry_loop.simps) simp
  then show ?case
    using a e by (simp add: retry_loop.simps [of fn maxRetries d h maxRetries] lastFailedAttempt_def)
next
  case (Suc n)
  then have lt: "a < maxRetries" and n: "n = maxRetries - (a + 1)" by auto
  from Suc.prems lt obtain e where e: "fn a = Inl e" by (cases "fn a") auto
  have step: "retry_loop fn maxRetries d h (a + 1) (Some e) =
      (Inl (Thrown (projl (fn maxRetries))),
        concat (map (failedAttempt fn d h) [a + 1..<maxRetries]) @ lastFailedAttempt fn h maxRetries)"
    using Suc.hyps(1) [OF n, of "Some e"] Suc.prems lt by simp
  show ?case
    using e step lt
    by (simp add: retry_loop.simps [of fn maxRetries d h a] upt_conv_Cons failedAttempt_def)
qed

text \<open>
  Claim C8. With \<open>maxRetries\<close> at least 1: if the operation first succeeds on attempt
  \<open>k \<le> maxRetries\<close>, \<^verbatim>\<open>retry\<close> returns that result, having invoked the operation \<open>k\<close> times,
  and after each of the \<open>k - 1\<close> failures it has called the hook (when supplied) with the
  error and the attempt number and slept \<open>initialDelayMs \<times> 2^(attempt - 1)\<close>; nothing follows
  the successful invocation. If all \<open>maxRetries\<close> attempts fail, it throws the last error,
  having invoked the operation \<open>maxRetries\<close> times, called the hook after every failure and
  slept after every failure but the last. The sleeps are a function of the attempt number
  and \<open>initialDelayMs\<close> alone.
\<close>

theorem retry_behaviour:
  "(1 \<le> k \<and> k \<le> maxRetries \<and> (\<forall>i. 1 \<le> i \<and> i < k \<longrightarrow> isl (fn i)) \<and> fn k = Inr v \<longrightarrow>
      retry fn maxRetries initialDelayMs onError =
        (Inr v, concat (map (failedAttempt fn initialDelayMs onError) [1..<k]) @ [Invoke k]))
   \<and> (1 \<le> maxRetries \<and> (\<forall>i. 1 \<le> i \<and> i \<le> maxRetries \<longrightarrow> isl (fn i)) \<longrightarrow>
      retry fn maxRetries initialDelayMs onError =
        (Inl (Thrown (projl (fn maxRetries))),
         concat (map (failedAttempt fn initialDelayMs onError) [1..<maxRetries])
         @ lastFailedAttempt fn onError maxRetries))"
  unfolding retry_def
  using retry_loop_success [of 1 k maxRetries fn v initialDelayMs onError None]
        retry_loop_exhausted [of 1 maxRetries fn initialDelayMs onError None]
  by blast

theorem retry_behaviour_witness:
  "retry flakyOp 3 1000 True =
     (Inr 7, [Invoke 1, OnError ''timeout'' 1, Delay 1000,
              Invoke 2, OnError ''timeout'' 2, Delay 2000, Invoke 3])
   \<and> retry brokenOp 2 2000 True =
     (Inl (Thrown ''second''), [Invoke 1, OnError ''first'' 1, Delay 2000,
              Invoke 2, OnError ''second'' 2])"
proof -
  have a: "1 \<le> (3::nat) \<and> (3::nat) \<le> 3 \<and> (\<forall>i. 1 \<le> i \<and> i < 3 \<longrightarrow> isl (flakyOp i)) \<and> flakyOp 3 = Inr 7"
    by (simp add: flakyOp_def)
  have b: "1 \<le> (2::nat) \<and> (\<forall>i. 1 \<le> i \<and> i \<le> 2 \<longrightarrow> isl (brokenOp i))"
    by (simp add: brokenOp_def)
  from retry_behaviour [of 3 3 flakyOp 7 1000 True] a
  have "retry flakyOp 3 1000 True =
        (Inr 7, concat (map (failedAttempt flakyOp 1000 True) [1..<3]) @ [Invoke 3])" by blast
  moreover from retry_behaviour [of 2 2 brokenOp undefined 2000 True] b
  have "retry brokenOp 2 2000 True =
        (Inl (Thrown (projl (brokenOp 2))),
         concat (map (failedAttempt brokenOp 2000 True) [1..<2]) @ lastFailedAttempt brokenOp True 2)"
    by blast
  ultimately show ?thesis
    by (simp add: upt_conv_Cons failedAttempt_def lastFailedAttempt_def flakyOp_def brokenOp_def)
qed

section \<open>Cooldown\<close>

lemma updateTokenState_defined: "updateTokenState now a pair snap src tokens a \<noteq> None"
  by (simp add: updateTokenState_def Let_def)

lemma updateTokenState_other: "b \<noteq> a \<Longrightarrow> updateTokenState now a pair snap src tokens b = tokens b"
  by (simp add: updateTokenState_def Let_def)

lemma lastAlertOf_update:
  "lastAlertOf (updateTokenState now a pair snap src tokens) addr t = lastAlertOf tokens addr t"
  by (simp add: lastAlertOf_def updateTokenState_def Let_def split: option.splits)

lemma lastAlertOf_record:
  "tokens a \<noteq> None \<Longrightarrow>
     lastAlertOf (recordAlert now tokens a t) addr t' =
       (if addr = a \<and> t' = t then Some now else lastAlertOf tokens addr t')"
  by (auto simp: lastAlertOf_def recordAlert_def split: option.splits)

lemma isInCooldown_lastAlertOf:
  "isInCooldown now tokens addr t cd =
     (case lastAlertOf tokens addr t of None \<Rightarrow> False | Some s \<Rightarrow> s \<noteq> 0 \<and> now - s < cd)"
  by (auto simp: isInCooldown_def lastAlertOf_def Let_def split: option.splits)

lemma isInCooldown_update:
  "isInCooldown now (updateTokenState now' a pair snap src tokens) addr t cd =
     isInCooldown now tokens addr t cd"
  by (simp add: isInCooldown_lastAlertOf lastAlertOf_update)

lemma checkForSpike_unresolved:
  "getTokenSource pair = None \<Longrightarrow> checkForSpike cfg now pair tokens = (None, tokens)"
  by (simp add: checkForSpike_def)

lemma checkForSpike_fires:
  assumes "checkForSpike cfg now pair tokens = (Some a, tokens')"
  shows "\<exists>src. getTokenSource pair = Some src \<and>
           meetsBasicCriteria cfg pair \<and>
           isDormant now (updateTokenState now (address (baseToken pair)) pair (createSnapshot now pair) (Some src) tokens)
             (address (baseToken pair)) (dormantVolatilityThreshold cfg) (dormantVolumeThreshold cfg) (baselinePeriodMinutes cfg) \<and>
           \<not> isInCooldown now tokens (address (baseToken pair)) (tier a) (alertCooldownMs cfg) \<and>
           tokenAddress_a a = address (baseToken pair) \<and> timestamp_a a = now \<and>
           priceChange5m_a a = orZero (priceChange_m5 pair) \<and>
           (tier a = tier50 \<longrightarrow> alertThreshold50 cfg \<and> 50 \<le> orZero (priceChange_m5 pair)) \<and>
           (tier a = tier25 \<longrightarrow> alertThreshold25 cfg \<and> 25 \<le> orZero (priceChange_m5 pair) \<and> orZero (priceChange_m5 pair) < 50) \<and>
           tokens' = recordAlert now (updateTokenState now (address (baseToken pair)) pair (createSnapshot now pair) (Some src) tokens)
                       (address (baseToken pair)) (tier a)"
  using assms
  by (auto simp: checkForSpike_def Let_def isInCooldown_update createSnapshot_def
           split: option.splits if_splits)

lemma checkForSpike_silent:
  assumes "checkForSpike cfg now pair tokens = (None, tokens')"
  shows "tokens' = tokens \<or>
         (\<exists>src. tokens' = updateTokenState now (address (baseToken pair)) pair (createSnapshot now pair) (Some src) tokens)"
  using assms
  by (auto simp: checkForSpike_def Let_def split: option.splits if_splits)

lemma checkForSpike_stamp:
  assumes "checkForSpike cfg now pair tokens = (alert, tokens')"
  shows "lastAlertOf tokens' addr t =
           (if (\<exists>a. alert = Some a \<and> tokenAddress_a a = addr \<and> tier a = t) then Some now
            else lastAlertOf tokens addr t)"
proof (cases alert)
  case None
  with checkForSpike_silent [of cfg now pair tokens tokens'] assms
  show ?thesis by (auto simp: lastAlertOf_update)
next
  case (Some a)
  with checkForSpike_fires [of cfg now pair tokens a tokens'] assms
  show ?thesis
    by (auto simp: lastAlertOf_record lastAlertOf_update updateTokenState_defined)
qed

lemma later_alerts_respect_stamp:
  assumes "lastAlertOf tokens addr t = Some s" "T \<le> s" "0 < T"
    and "\<forall>(now, p) \<in> set evals. T \<le> now"
    and "checkMultiplePairs cfg evals tokens = (alerts, tokens')"
    and "b \<in> set alerts" "tokenAddress_a b = addr" "tier b = t"
  shows "T + alertCooldownMs cfg \<le> timestamp_a b"
  using assms
proof (induction evals arbitrary: tokens s alerts tokens')
  case Nil
  then show ?case by simp
next
  case (Cons e evals)
  obtain now pair where e: "e = (now, pair)" by (cases e)
  obtain alert tokens1 where step: "checkForSpike cfg now pair tokens = (alert, tokens1)"
    by (cases "checkForSpike cfg now pair tokens")
  obtain alerts1 tokens2 where rest: "checkMultiplePairs cfg evals tokens1 = (alerts1, tokens2)"
    by (cases "checkMultiplePairs cfg evals tokens1")
  have now: "T \<le> now" using Cons.prems(4) e by auto
  have later: "\<forall>(now, p) \<in> set evals. T \<le> now" using Cons.prems(4) by auto
  have alerts: "alerts = (case alert of None \<Rightarrow> alerts1 | Some a \<Rightarrow> a # alerts1)"
    using Cons.prems(5) e step rest by simp
  have stamp: "lastAlertOf tokens1 addr t =
           (if (\<exists>a. alert = Some a \<and> tokenAddress_a a = addr \<and> tier a = t) then Some now
            else Some s)"
    using checkForSpike_stamp [OF step, of addr t] Cons.prems(1) by auto
  then obtain s1 where s1: "lastAlertOf tokens1 addr t = Some s1" "T \<le> s1"
    using now Cons.prems(2) by (auto split: if_splits)
  show ?case
  proof (cases "alert = Some b")
    case True
    from checkForSpike_fires [of cfg now pair tokens b tokens1] step True
    have nc: "\<not> isInCooldown now tokens addr t (alertCooldownMs cfg)" and ts: "timestamp_a b = now"
      using Cons.prems(7,8) by auto
    from nc Cons.prems(1) have "s = 0 \<or> alertCooldownMs cfg \<le> now - s"
      by (auto simp: isInCooldown_lastAlertOf)
    with Cons.prems(2,3) ts show ?thesis by auto
  next
    case False
    with alerts Cons.prems(6) have "b \<in> set alerts1" by (auto split: option.splits)
    from Cons.IH [OF s1 Cons.prems(3) later rest this Cons.prems(7,8)]
    show ?thesis .
  qed
qed

section \<open>Evaluating the scenarios\<close>

lemma spikePair_source: "getTokenSource (spikePair (Some ''pumpfun'') u c l v) = Some pumpfun"
  by (simp add: getTokenSource_def spikePair_def toLowerCase_def toLowerCase_char_def)

lemma spikePair_sel:
  "baseToken (spikePair d u c l v) = \<lparr> address = ''tok'', symbol = ''TOK'', name = ''Token'' \<rparr>"
  "pairAddress (spikePair d u c l v) = ''pair''"
  "priceUsd (spikePair d u c l v) = PriceNum u"
  "fdv (spikePair d u c l v) = Some 40000"
  "volume_m5 (spikePair d u c l v) = Some v"
  "volume_h24 (spikePair d u c l v) = None"
  "liquidity_usd (spikePair d u c l v) = Some l"
  "priceChange_m5 (spikePair d u c l v) = Some c"
  "priceChange_h24 (spikePair d u c l v) = None"
  "pairCreatedAt (spikePair d u c l v) = None"
  by (simp_all add: spikePair_def)

lemmas eval_simps = checkForSpike_def spikePair_source spikePair_sel Let_def updateTokenState_def
      exampleState_def createSnapshot_def
      exampleSnapshot_def exampleConfig_def meetsBasicCriteria_def orZero_def priceOrZero_def
      isDormant_def getSnapshotsInWindow_def maxSnapshotsPerToken_def isInCooldown_def recordAlert_def
      isDormant_loop.simps

lemma firstEval_alert:
  "map_option (\<lambda>a. (tokenAddress_a a, tier a, timestamp_a a)) (fst firstEval) = Some (''tok'', tier25, 3600000)"
  by (simp add: firstEval_def scenarioPair_def quietTokens_def eval_simps)

lemma laterEvals_alerts:
  "map (\<lambda>a. (tokenAddress_a a, tier a, timestamp_a a)) (fst laterEvals) = [(''tok'', tier25, 5460000)]"
  by (simp add: laterEvals_def firstEval_def scenarioPair_def quietTokens_def eval_simps)

text \<open>
  Claim C1. Let an evaluation at clock reading \<open>T\<close> (after the epoch) fire an alert for an
  address and tier. Then the state it returns already carries \<open>lastAlertTimestamp = T\<close> for
  that address and tier (the stamp is written inside the evaluation, before the alert is
  handed to anyone), and in any later sequence of evaluations, of any pairs, at clock
  readings not before \<open>T\<close>, every alert for the same address and tier is emitted at
  \<open>T + alertCooldownMs\<close> or later.
\<close>

theorem cooldown_no_second_alert:
  assumes "checkForSpike cfg T pair tokens = (Some a, tokens1)"
    and "0 < T"
    and "\<forall>(now, p) \<in> set evals. T \<le> now"
    and "checkMultiplePairs cfg evals tokens1 = (alerts, tokens2)"
    and "b \<in> set alerts" and "tokenAddress_a b = tokenAddress_a a" and "tier b = tier a"
  shows "lastAlertOf tokens1 (tokenAddress_a a) (tier a) = Some T
       \<and> T + alertCooldownMs cfg \<le> timestamp_a b"
proof -
  have stamp: "lastAlertOf tokens1 (tokenAddress_a a) (tier a) = Some T"
    using checkForSpike_stamp [OF assms(1), of "tokenAddress_a a" "tier a"] by simp
  from later_alerts_respect_stamp [OF stamp order_refl assms(2,3,4,5,6,7)]
  show ?thesis using stamp by simp
qed

text \<open>
  The quiet token alerts at minute 60; it is evaluated again at minutes 62 and 91 with the
  same qualifying record, and the only later alert is the one at minute 91.
\<close>

theorem cooldown_no_second_alert_witness:
  "lastAlertOf (snd firstEval) ''tok'' tier25 = Some 3600000
   \<and> 3600000 + alertCooldownMs exampleConfig \<le> timestamp_a (hd (fst laterEvals))"
proof -
  obtain a where a: "fst firstEval = Some a" "tokenAddress_a a = ''tok''" "tier a = tier25"
    using firstEval_alert by auto
  obtain b where b: "fst laterEvals = [b]" "tokenAddress_a b = ''tok''" "tier b = tier25"
    using laterEvals_alerts by (cases "fst laterEvals") auto
  have 1: "checkForSpike exampleConfig 3600000 (scenarioPair 30) quietTokens = (Some a, snd firstEval)"
    using a(1) by (simp add: firstEval_def prod_eq_iff)
  have 2: "checkMultiplePairs exampleConfig
      [(3720000, scenarioPair 30), (5460000, scenarioPair 30)] (snd firstEval) = (fst laterEvals, snd laterEvals)"
    by (simp add: laterEvals_def)
  have 3: "\<forall>(now, p) \<in> set [(3720000, scenarioPair 30), (5460000::int, scenarioPair 30)]. 3600000 \<le> now"
    by simp
  have 4: "b \<in> set (fst laterEvals)" using b(1) by simp
  from cooldown_no_second_alert [OF 1 _ 3 2 4] a b
  show ?thesis by simp
qed

text \<open>
  Claim C2 does not hold of the code. \<^verbatim>\<open>checkForSpike\<close> appends the new snapshot and only then
  asks \<^verbatim>\<open>isDormant\<close>, so the window it examines ends with the new snapshot. At the breakout
  record the stored state just before the snapshot is dormant, the source is verified,
  the basic criteria hold, the change is 30 percent and the tier is not in cooldown, and
  yet no alert is returned: the step from 1.02 to 1.30 is itself in the window.
\<close>

theorem dormancy_decided_after_update:
  "isDormant 3600000 quietTokens ''tok'' (dormantVolatilityThreshold exampleConfig)
      (dormantVolumeThreshold exampleConfig) (baselinePeriodMinutes exampleConfig)
   \<and> getTokenSource breakoutPair = Some pumpfun
   \<and> meetsBasicCriteria exampleConfig breakoutPair
   \<and> orZero (priceChange_m5 breakoutPair) = 30
   \<and> \<not> isInCooldown 3600000 quietTokens ''tok'' tier25 (alertCooldownMs exampleConfig)
   \<and> fst (checkForSpike exampleConfig 3600000 breakoutPair quietTokens) = None
   \<and> last (getSnapshotsInWindow 3600000 (snd (checkForSpike exampleConfig 3600000 breakoutPair quietTokens))
        ''tok'' (baselinePeriodMinutes exampleConfig)) = createSnapshot 3600000 breakoutPair"
  by (simp add: breakoutPair_def quietTokens_def eval_simps)

text \<open>
  Claim C3. A pair whose liquidity is below the configured floor yields no alert, whatever
  the stored state, the clock, the source and the price change are.
\<close>

theorem liquidity_floor_gate:
  "orZero (liquidity_usd pair) < minLiquidityUsd cfg \<Longrightarrow>
     fst (checkForSpike cfg now pair tokens) = None"
  by (simp add: checkForSpike_def meetsBasicCriteria_def Let_def split: option.splits)

text \<open>Scenario E: liquidity 1500 against a floor of 2000, everything else as in the alerting scenario.\<close>

theorem liquidity_floor_gate_witness:
  "orZero (liquidity_usd thinPair) < minLiquidityUsd exampleConfig
   \<and> fst (checkForSpike exampleConfig 3600000 thinPair quietTokens) = None
   \<and> orZero (priceChange_m5 thinPair) = 30
   \<and> isDormant 3600000 (snd (checkForSpike exampleConfig 3600000 thinPair quietTokens)) ''tok''
         (dormantVolatilityThreshold exampleConfig) (dormantVolumeThreshold exampleConfig)
         (baselinePeriodMinutes exampleConfig)"
proof -
  have h: "orZero (liquidity_usd thinPair) < minLiquidityUsd exampleConfig"
    by (simp add: thinPair_def spikePair_sel orZero_def exampleConfig_def)
  have d: "orZero (priceChange_m5 thinPair) = 30
     \<and> isDormant 3600000 (snd (checkForSpike exampleConfig 3600000 thinPair quietTokens)) ''tok''
         (dormantVolatilityThreshold exampleConfig) (dormantVolumeThreshold exampleConfig)
         (baselinePeriodMinutes exampleConfig)"
    by (simp add: thinPair_def quietTokens_def eval_simps)
  from liquidity_floor_gate [OF h] h d show ?thesis by simp
qed

section \<open>Tier selection\<close>

lemma checkForSpike_selected:
  assumes "getTokenSource pair = Some src"
    and "meetsBasicCriteria cfg pair"
    and "isDormant now
           (updateTokenState now (address (baseToken pair)) pair (createSnapshot now pair) (Some src) tokens)
           (address (baseToken pair)) (dormantVolatilityThreshold cfg) (dormantVolumeThreshold cfg)
           (baselinePeriodMinutes cfg)"
  shows "map_option tier (fst (checkForSpike cfg now pair tokens)) =
           (if alertThreshold50 cfg \<and> 50 \<le> orZero (priceChange_m5 pair) \<and>
               \<not> isInCooldown now tokens (address (baseToken pair)) tier50 (alertCooldownMs cfg)
            then Some tier50
            else if alertThreshold25 cfg \<and> 25 \<le> orZero (priceChange_m5 pair) \<and>
               orZero (priceChange_m5 pair) < 50 \<and>
               \<not> isInCooldown now tokens (address (baseToken pair)) tier25 (alertCooldownMs cfg)
            then Some tier25
            else None)"
proof -
  have pc: "priceChange5m (createSnapshot now pair) = orZero (priceChange_m5 pair)"
    by (simp add: createSnapshot_def)
  show ?thesis
    unfolding checkForSpike_def Let_def
    by (simp only: assms option.case if_True if_False not_True_eq_False not_False_eq_True
          isInCooldown_update pc)
       (simp split: if_splits)
qed

text \<open>
  Claim C5. For an evaluation that passes the source, eligibility and dormancy gates, with
  both tiers enabled and neither in cooldown: a change of exactly 50 selects \<open>tier50\<close>, a
  change of 24.999 selects no tier; every change of at least 50 selects \<open>tier50\<close> (never
  \<open>tier25\<close>), every change in \<open>[25, 50)\<close> selects \<open>tier25\<close>, and every change below 25
  selects none.
\<close>

theorem tier_selection_boundary:
  assumes "getTokenSource pair = Some src"
    and "meetsBasicCriteria cfg pair"
    and "isDormant now
           (updateTokenState now (address (baseToken pair)) pair (createSnapshot now pair) (Some src) tokens)
           (address (baseToken pair)) (dormantVolatilityThreshold cfg) (dormantVolumeThreshold cfg)
           (baselinePeriodMinutes cfg)"
    and "alertThreshold25 cfg" and "alertThreshold50 cfg"
    and "\<not> isInCooldown now tokens (address (baseToken pair)) tier25 (alertCooldownMs cfg)"
    and "\<not> isInCooldown now tokens (address (baseToken pair)) tier50 (alertCooldownMs cfg)"
  shows "(orZero (priceChange_m5 pair) = 50 \<longrightarrow>
            map_option tier (fst (checkForSpike cfg now pair tokens)) = Some tier50)
       \<and> (orZero (priceChange_m5 pair) = 24.999 \<longrightarrow>
            fst (checkForSpike cfg now pair tokens) = None)
       \<and> (50 \<le> orZero (priceChange_m5 pair) \<longrightarrow>
            map_option tier (fst (checkForSpike cfg now pair tokens)) = Some tier50)
       \<and> (25 \<le> orZero (priceChange_m5 pair) \<and> orZero (priceChange_m5 pair) < 50 \<longrightarrow>
            map_option tier (fst (checkForSpike cfg now pair tokens)) = Some tier25)
       \<and> (orZero (priceChange_m5 pair) < 25 \<longrightarrow>
            fst (checkForSpike cfg now pair tokens) = None)"
proof -
  note sel = checkForSpike_selected [OF assms(1,2,3)]
  have none: "fst (checkForSpike cfg now pair tokens) = None"
    if "orZero (priceChange_m5 pair) < 25"
  proof -
    from sel that have "map_option tier (fst (checkForSpike cfg now pair tokens)) = None" by simp
    then show ?thesis by simp
  qed
  have a: "orZero (priceChange_m5 pair) = 50 \<longrightarrow>
            map_option tier (fst (checkForSpike cfg now pair tokens)) = Some tier50"
    using sel assms(5,7) by simp
  have b: "orZero (priceChange_m5 pair) = 24.999 \<longrightarrow> fst (checkForSpike cfg now pair tokens) = None"
    using none by simp
  have c: "50 \<le> orZero (priceChange_m5 pair) \<longrightarrow>
            map_option tier (fst (checkForSpike cfg now pair tokens)) = Some tier50"
    using sel assms(5,7) by simp
  have d: "25 \<le> orZero (priceChange_m5 pair) \<and> orZero (priceChange_m5 pair) < 50 \<longrightarrow>
            map_option tier (fst (checkForSpike cfg now pair tokens)) = Some tier25"
    using sel assms(4,6) by simp
  have e: "orZero (priceChange_m5 pair) < 25 \<longrightarrow> fst (checkForSpike cfg now pair tokens) = None"
    using none by simp
  from a b c d e show ?thesis by blast
qed

lemma quiet_gates:
  "getTokenSource (scenarioPair c) = Some pumpfun"
  "meetsBasicCriteria exampleConfig (scenarioPair c)"
  "isDormant 3600000
     (updateTokenState 3600000 (address (baseToken (scenarioPair c))) (scenarioPair c)
        (createSnapshot 3600000 (scenarioPair c)) (Some pumpfun) quietTokens)
     (address (baseToken (scenarioPair c))) (dormantVolatilityThreshold exampleConfig)
     (dormantVolumeThreshold exampleConfig) (baselinePeriodMinutes exampleConfig)"
  "alertThreshold25 exampleConfig" "alertThreshold50 exampleConfig"
  "\<not> isInCooldown 3600000 quietTokens (address (baseToken (scenarioPair c))) tier25 (alertCooldownMs exampleConfig)"
  "\<not> isInCooldown 3600000 quietTokens (address (baseToken (scenarioPair c))) tier50 (alertCooldownMs exampleConfig)"
  if "1 < c"
proof -
  from that have active: "\<bar>c\<bar> > 1" by simp
  show "getTokenSource (scenarioPair c) = Some pumpfun"
    by (simp add: scenarioPair_def spikePair_source)
  show "meetsBasicCriteria exampleConfig (scenarioPair c)"
    by (simp add: scenarioPair_def eval_simps)
  show "isDormant 3600000
     (updateTokenState 3600000 (address (baseToken (scenarioPair c))) (scenarioPair c)
        (createSnapshot 3600000 (scenarioPair c)) (Some pumpfun) quietTokens)
     (address (baseToken (scenarioPair c))) (dormantVolatilityThreshold exampleConfig)
     (dormantVolumeThreshold exampleConfig) (baselinePeriodMinutes exampleConfig)"
    using active by (simp add: scenarioPair_def quietTokens_def eval_simps)
  show "alertThreshold25 exampleConfig" "alertThreshold50 exampleConfig"
    by (simp_all add: exampleConfig_def)
  show "\<not> isInCooldown 3600000 quietTokens (address (baseToken (scenarioPair c))) tier25 (alertCooldownMs exampleConfig)"
    "\<not> isInCooldown 3600000 quietTokens (address (baseToken (scenarioPair c))) tier50 (alertCooldownMs exampleConfig)"
    by (simp_all add: scenarioPair_def quietTokens_def eval_simps)
qed

theorem tier_selection_boundary_witness:
  "map_option tier (fst (checkForSpike exampleConfig 3600000 (scenarioPair 50) quietTokens)) = Some tier50
   \<and> fst (checkForSpike exampleConfig 3600000 (scenarioPair 24.999) quietTokens) = None
   \<and> map_option tier (fst (checkForSpike exampleConfig 3600000 (scenarioPair 62) quietTokens)) = Some tier50
   \<and> map_option tier (fst (checkForSpike exampleConfig 3600000 (scenarioPair 30) quietTokens)) = Some tier25"
proof -
  have pc: "orZero (priceChange_m5 (scenarioPair c)) = c" for c
    by (simp add: scenarioPair_def spikePair_sel orZero_def)
  have "map_option tier (fst (checkForSpike exampleConfig 3600000 (scenarioPair 50) quietTokens)) = Some tier50"
    using tier_selection_boundary [OF quiet_gates [of 50]] by (simp add: pc)
  moreover have "fst (checkForSpike exampleConfig 3600000 (scenarioPair 24.999) quietTokens) = None"
    using tier_selection_boundary [OF quiet_gates [of "24.999"]] by (simp add: pc)
  moreover have "map_option tier (fst (checkForSpike exampleConfig 3600000 (scenarioPair 62) quietTokens)) = Some tier50"
    using tier_selection_boundary [OF quiet_gates [of 62]] by (simp add: pc)
  moreover have "map_option tier (fst (checkForSpike exampleConfig 3600000 (scenarioPair 30) quietTokens)) = Some tier25"
    using tier_selection_boundary [OF quiet_gates [of 30]] by (simp add: pc)
  ultimately show ?thesis by blast
qed

section \<open>Sources\<close>

lemma updateTokenState_source:
  "\<exists>st'. updateTokenState now a pair snap src tokens addr = Some st' \<and> source st' = Some s"
  if "tokens addr = Some st" "source st = Some s"
  using that by (cases "addr = a") (auto simp: updateTokenState_def Let_def)

lemma recordAlert_source:
  "\<exists>st'. recordAlert now tokens a t addr = Some st' \<and> source st' = Some s"
  if "tokens addr = Some st" "source st = Some s"
  using that by (cases "addr = a") (auto simp: recordAlert_def split: option.splits)

lemma checkForSpike_tokens:
  "snd (checkForSpike cfg now pair tokens) = tokens \<and> getTokenSource pair = None
   \<or> (\<exists>src. getTokenSource pair = Some src \<and>
        (snd (checkForSpike cfg now pair tokens) =
           updateTokenState now (address (baseToken pair)) pair (createSnapshot now pair) (Some src) tokens
         \<or> (\<exists>t. snd (checkForSpike cfg now pair tokens) =
           recordAlert now (updateTokenState now (address (baseToken pair)) pair (createSnapshot now pair) (Some src) tokens)
              (address (baseToken pair)) t)))"
  by (cases "getTokenSource pair") (auto simp: checkForSpike_def Let_def split: option.splits)

lemma checkForSpike_source_kept:
  assumes "tokens addr = Some st" "source st = Some s"
  shows "\<exists>st'. snd (checkForSpike cfg now pair tokens) addr = Some st' \<and> source st' = Some s"
proof -
  let ?a = "address (baseToken pair)"
  have upd: "\<exists>st'. updateTokenState now ?a pair (createSnapshot now pair) src tokens addr = Some st'
                 \<and> source st' = Some s" for src
    using assms by (rule updateTokenState_source)
  have rec: "\<exists>st'. recordAlert now
                 (updateTokenState now ?a pair (createSnapshot now pair) src tokens) ?a t addr = Some st'
                 \<and> source st' = Some s" for src t
  proof -
    from upd [of src] obtain st1 where
      "updateTokenState now ?a pair (createSnapshot now pair) src tokens addr = Some st1"
      "source st1 = Some s" by blast
    then show ?thesis by (rule recordAlert_source)
  qed
  from checkForSpike_tokens [of cfg now pair tokens] show ?thesis
  proof (elim disjE conjE exE)
    assume "snd (checkForSpike cfg now pair tokens) = tokens"
    with assms show ?thesis by simp
  next
    fix src
    assume "snd (checkForSpike cfg now pair tokens) =
      updateTokenState now ?a pair (createSnapshot now pair) (Some src) tokens"
    with upd [of "Some src"] show ?thesis by simp
  next
    fix src t
    assume "snd (checkForSpike cfg now pair tokens) =
      recordAlert now (updateTokenState now ?a pair (createSnapshot now pair) (Some src) tokens) ?a t"
    with rec [of "Some src" t] show ?thesis by simp
  qed
qed

lemma sourced_update:
  "sourced tokens \<Longrightarrow> sourced (updateTokenState now a pair snap (Some src) tokens)"
  by (auto simp: sourced_def updateTokenState_def Let_def split: option.splits if_splits)

lemma sourced_record:
  "sourced tokens \<Longrightarrow> sourced (recordAlert now tokens a t)"
  by (auto simp: sourced_def recordAlert_def split: option.splits if_splits)

lemma sourced_checkForSpike:
  assumes "sourced tokens"
  shows "sourced (snd (checkForSpike cfg now pair tokens))"
proof -
  let ?a = "address (baseToken pair)"
  have upd: "sourced (updateTokenState now ?a pair (createSnapshot now pair) (Some src) tokens)" for src
    using assms by (rule sourced_update)
  from checkForSpike_tokens [of cfg now pair tokens] show ?thesis
  proof (elim disjE conjE exE)
    assume "snd (checkForSpike cfg now pair tokens) = tokens"
    with assms show ?thesis by simp
  next
    fix src
    assume "snd (checkForSpike cfg now pair tokens) =
      updateTokenState now ?a pair (createSnapshot now pair) (Some src) tokens"
    with upd [of src] show ?thesis by simp
  next
    fix src t
    assume "snd (checkForSpike cfg now pair tokens) =
      recordAlert now (updateTokenState now ?a pair (createSnapshot now pair) (Some src) tokens) ?a t"
    with sourced_record [OF upd [of src], of now ?a t] show ?thesis by simp
  qed
qed

lemma checkMultiplePairs_snd:
  "snd (checkMultiplePairs cfg ((now, pair) # evals) tokens) =
     snd (checkMultiplePairs cfg evals (snd (checkForSpike cfg now pair tokens)))"
  by (cases "checkForSpike cfg now pair tokens";
      cases "checkMultiplePairs cfg evals (snd (checkForSpike cfg now pair tokens))") simp

lemma sourced_checkMultiplePairs:
  "sourced tokens \<Longrightarrow> sourced (snd (checkMultiplePairs cfg evals tokens))"
proof (induction evals arbitrary: tokens)
  case Nil
  then show ?case by simp
next
  case (Cons e evals)
  obtain now pair where e: "e = (now, pair)" by (cases e)
  have "sourced (snd (checkForSpike cfg now pair tokens))"
    using Cons.prems by (rule sourced_checkForSpike)
  from Cons.IH [OF this] show ?case
    by (simp add: e checkMultiplePairs_snd del: checkMultiplePairs.simps)
qed

text \<open>
  Claim C7. If the source of a pair does not resolve, \<^verbatim>\<open>checkForSpike\<close> returns no alert and
  the store unchanged. Hence, in the store reached from the empty one by any sequence of
  evaluations, every state has a source; and a source that is set is kept by every
  evaluation and by every \<^verbatim>\<open>updateTokenState\<close> call, whatever source it is called with.
\<close>

theorem unverified_source_gate:
  "(getTokenSource pair = None \<longrightarrow> checkForSpike cfg now pair tokens = (None, tokens))
   \<and> (\<forall>addr st. snd (checkMultiplePairs cfg evals Map.empty) addr = Some st \<longrightarrow> source st \<noteq> None)
   \<and> (\<forall>addr st s. tokens addr = Some st \<and> source st = Some s \<longrightarrow>
         (\<exists>st'. snd (checkForSpike cfg now pair tokens) addr = Some st' \<and> source st' = Some s))
   \<and> (\<forall>addr st s. tokens addr = Some st \<and> source st = Some s \<longrightarrow>
         (\<exists>st'. updateTokenState now a pair snap src tokens addr = Some st' \<and> source st' = Some s))"
proof -
  have "sourced Map.empty" by (simp add: sourced_def)
  then have "sourced (snd (checkMultiplePairs cfg evals Map.empty))"
    by (rule sourced_checkMultiplePairs)
  then have 2: "\<forall>addr st. snd (checkMultiplePairs cfg evals Map.empty) addr = Some st \<longrightarrow> source st \<noteq> None"
    by (simp add: sourced_def)
  have 3: "\<forall>addr st s. tokens addr = Some st \<and> source st = Some s \<longrightarrow>
         (\<exists>st'. snd (checkForSpike cfg now pair tokens) addr = Some st' \<and> source st' = Some s)"
    using checkForSpike_source_kept by blast
  have 4: "\<forall>addr st s. tokens addr = Some st \<and> source st = Some s \<longrightarrow>
         (\<exists>st'. updateTokenState now a pair snap src tokens addr = Some st' \<and> source st' = Some s)"
    using updateTokenState_source by blast
  from checkForSpike_unresolved 2 3 4 show ?thesis by blast
qed

lemma firstSightings_state:
  "snd (checkMultiplePairs exampleConfig firstSightings Map.empty) ''tok''
     = Some (the (snd (checkMultiplePairs exampleConfig firstSightings Map.empty) ''tok''))"
  by (simp add: firstSightings_def unverifiedPair_def scenarioPair_def eval_simps
        getTokenSource_def toLowerCase_def toLowerCase_char_def spikePair_def)

text \<open>
  An unverified record leaves the quiet store untouched; the state that the first
  sightings create has a source; and a later record of the other origin for the same
  address does not replace the source that is set.
\<close>

theorem unverified_source_gate_witness:
  "getTokenSource unverifiedPair = None
   \<and> checkForSpike exampleConfig 3600000 unverifiedPair quietTokens = (None, quietTokens)
   \<and> snd (checkMultiplePairs exampleConfig firstSightings Map.empty) ''tok'' \<noteq> None
   \<and> source (the (snd (checkMultiplePairs exampleConfig firstSightings Map.empty) ''tok'')) \<noteq> None
   \<and> map_option source (snd (checkForSpike exampleConfig 3600000 bonkPair quietTokens) ''tok'')
       = Some (Some pumpfun)
   \<and> map_option source (updateTokenState 3600000 ''tok'' bonkPair (createSnapshot 3600000 bonkPair)
         (Some bonk) quietTokens ''tok'') = Some (Some pumpfun)"
proof -
  have src: "getTokenSource unverifiedPair = None"
    by (simp add: unverifiedPair_def getTokenSource_def spikePair_def toLowerCase_def
          toLowerCase_char_def)
  have q: "quietTokens ''tok'' = Some (the (quietTokens ''tok'')) \<and>
           source (the (quietTokens ''tok'')) = Some pumpfun"
    by (simp add: quietTokens_def exampleState_def)
  note t = unverified_source_gate [of unverifiedPair exampleConfig 3600000 quietTokens firstSightings
             "''tok''" "createSnapshot 3600000 bonkPair" "Some bonk"]
  note u = unverified_source_gate [of bonkPair exampleConfig 3600000 quietTokens firstSightings
             "''tok''" "createSnapshot 3600000 bonkPair" "Some bonk"]
  have 1: "checkForSpike exampleConfig 3600000 unverifiedPair quietTokens = (None, quietTokens)"
    using t [THEN conjunct1] src by simp
  have 0: "snd (checkMultiplePairs exampleConfig firstSightings Map.empty) ''tok'' \<noteq> None"
    using firstSightings_state by (metis option.distinct(1))
  have 2: "source (the (snd (checkMultiplePairs exampleConfig firstSightings Map.empty) ''tok'')) \<noteq> None"
    using t [THEN conjunct2, THEN conjunct1, rule_format, OF firstSightings_state] .
  from u [THEN conjunct2, THEN conjunct2, THEN conjunct1, rule_format, OF q]
  obtain st' where
    "snd (checkForSpike exampleConfig 3600000 bonkPair quietTokens) ''tok'' = Some st'"
    "source st' = Some pumpfun" by (elim exE conjE)
  then have 3: "map_option source (snd (checkForSpike exampleConfig 3600000 bonkPair quietTokens) ''tok'')
       = Some (Some pumpfun)" by simp
  from u [THEN conjunct2, THEN conjunct2, THEN conjunct2, rule_format, OF q]
  obtain st'' where
    "updateTokenState 3600000 ''tok'' bonkPair (createSnapshot 3600000 bonkPair)
         (Some bonk) quietTokens ''tok'' = Some st''"
    "source st'' = Some pumpfun" by (elim exE conjE)
  then have 4: "map_option source (updateTokenState 3600000 ''tok'' bonkPair (createSnapshot 3600000 bonkPair)
         (Some bonk) quietTokens ''tok'') = Some (Some pumpfun)" by simp
  from src 0 1 2 3 4 show ?thesis by (intro conjI)
qed

section \<open>Snapshot capacity\<close>

lemma storedSnapshots_update:
  "storedSnapshots (updateTokenState now a pair snap src tokens) b =
     (if b = a
      then (if maxSnapshotsPerToken \<le> length (storedSnapshots tokens a)
            then tl (storedSnapshots tokens a) @ [snap]
            else storedSnapshots tokens a @ [snap])
      else storedSnapshots tokens b)"
  by (cases "storedSnapshots tokens a")
     (auto simp: storedSnapshots_def updateTokenState_def Let_def maxSnapshotsPerToken_def
           split: option.splits)

lemma storedSnapshots_capacity_step:
  assumes "\<forall>b. length (storedSnapshots tokens b) \<le> maxSnapshotsPerToken"
  shows "length (storedSnapshots (updateTokenState now a pair snap src tokens) b) \<le> maxSnapshotsPerToken"
proof -
  have "length (storedSnapshots tokens a) \<le> maxSnapshotsPerToken"
       "length (storedSnapshots tokens b) \<le> maxSnapshotsPerToken"
    using assms by blast+
  then show ?thesis
    by (auto simp: storedSnapshots_update maxSnapshotsPerToken_def)
qed

lemma storedSnapshots_capacity_run:
  "\<forall>b. length (storedSnapshots tokens b) \<le> maxSnapshotsPerToken \<Longrightarrow>
     length (storedSnapshots (updateTokenStates calls tokens) b) \<le> maxSnapshotsPerToken"
proof (induction calls arbitrary: tokens)
  case Nil
  then show ?case by simp
next
  case (Cons c calls)
  obtain now a pair snap src where c: "c = (now, a, pair, snap, src)" by (cases c)
  have "\<forall>b. length (storedSnapshots (updateTokenState now a pair snap src tokens) b) \<le> maxSnapshotsPerToken"
    using storedSnapshots_capacity_step [OF Cons.prems] by blast
  from Cons.IH [OF this] show ?case by (simp add: c)
qed

text \<open>
  Claim C6. The capacity is 144. After any sequence of \<^verbatim>\<open>updateTokenState\<close> calls on an
  initially empty store every stored sequence has at most 144 snapshots. One call appends
  the snapshot to the sequence of its address, dropping the oldest (first) snapshot exactly
  when the sequence was already at capacity, and leaves the other snapshots of that
  sequence and every other address as they were.
\<close>

theorem snapshots_capacity_fifo:
  "maxSnapshotsPerToken = 144
   \<and> length (storedSnapshots (updateTokenStates calls Map.empty) addr) \<le> maxSnapshotsPerToken
   \<and> storedSnapshots (updateTokenState now a pair snap src tokens) a =
       (if maxSnapshotsPerToken \<le> length (storedSnapshots tokens a)
        then tl (storedSnapshots tokens a) @ [snap]
        else storedSnapshots tokens a @ [snap])
   \<and> (\<forall>b. b \<noteq> a \<longrightarrow> updateTokenState now a pair snap src tokens b = tokens b)"
proof -
  have "\<forall>b. length (storedSnapshots Map.empty b) \<le> maxSnapshotsPerToken"
    by (simp add: storedSnapshots_def)
  from storedSnapshots_capacity_run [OF this]
  show ?thesis
    by (simp add: storedSnapshots_update updateTokenState_other) (simp add: maxSnapshotsPerToken_def)
qed

theorem snapshots_capacity_fifo_witness:
  "length (storedSnapshots (updateTokenStates twoUpdates Map.empty) ''tok'') \<le> 144
   \<and> length (storedSnapshots fullTokens ''tok'') = 144
   \<and> storedSnapshots (updateTokenState 144000 ''tok'' (scenarioPair 0) (exampleSnapshot 144000 1 0) None fullTokens) ''tok''
       = tl (storedSnapshots fullTokens ''tok'') @ [exampleSnapshot 144000 1 0]
   \<and> updateTokenState 144000 ''tok'' (scenarioPair 0) (exampleSnapshot 144000 1 0) None fullTokens ''other''
       = fullTokens ''other''"
proof -
  have len: "length (storedSnapshots fullTokens ''tok'') = 144"
    by (simp add: storedSnapshots_def fullTokens_def exampleState_def)
  have ne: "''other'' \<noteq> ''tok''" by simp
  from snapshots_capacity_fifo [of twoUpdates "''tok''" 144000 "''tok''" "scenarioPair 0"
      "exampleSnapshot 144000 1 0" None fullTokens] len ne
  show ?thesis by simp
qed

section \<open>Revalidation\<close>

lemma service_update_frame:
  "tokenStateManager (snd (service_updateTokenEligibility cfg now fetched addr svc)) = tokenStateManager svc"
  by (simp add: service_updateTokenEligibility_def split: prod.splits)

lemma service_update_tracked:
  "tokenUniverseManager (snd (service_updateTokenEligibility cfg now fetched addr svc)) =
     (case fetched of
        Inl err \<Rightarrow> tokenUniverseManager svc
      | Inr pairs \<Rightarrow>
          (if filterEligiblePairs cfg now pairs = [] then tokenUniverseManager svc - {addr}
           else insert addr (tokenUniverseManager svc)))"
  by (auto simp: service_updateTokenEligibility_def updateTokenEligibility_def Let_def
           split: prod.splits sum.splits)

lemma revalidateTokens_snd:
  "snd (revalidateTokens cfg now fetch (addr # rest) svc) =
     snd (revalidateTokens cfg now fetch rest
            (snd (service_updateTokenEligibility cfg now (fetch addr) addr svc)))"
  by (cases "service_updateTokenEligibility cfg now (fetch addr) addr svc";
      cases "revalidateTokens cfg now fetch rest
            (snd (service_updateTokenEligibility cfg now (fetch addr) addr svc))") simp

lemma revalidateTokens_frame:
  "tokenStateManager (snd (revalidateTokens cfg now fetch addrs svc)) = tokenStateManager svc"
proof (induction addrs arbitrary: svc)
  case Nil
  then show ?case by simp
next
  case (Cons addr rest)
  show ?case
    by (simp add: revalidateTokens_snd Cons.IH service_update_frame del: revalidateTokens.simps)
qed

text \<open>
  Claim C9. \<^verbatim>\<open>updateTokenEligibility\<close>, and the revalidation loop of the discovery cycle that
  calls it, leave the state manager's store as it was. A tracked address is removed from
  the tracked set exactly when the fetch succeeds and none of the fetched pairs passes the
  eligibility filter; the membership of every other address is unchanged.
\<close>

theorem revalidation_touches_membership_only:
  "tokenStateManager (snd (service_updateTokenEligibility cfg now fetched addr svc)) = tokenStateManager svc
   \<and> tokenStateManager (snd (revalidateTokens cfg now fetch addrs svc)) = tokenStateManager svc
   \<and> (addr \<in> tokenUniverseManager svc \<longrightarrow>
        (addr \<notin> tokenUniverseManager (snd (service_updateTokenEligibility cfg now fetched addr svc))
           \<longleftrightarrow> (\<exists>pairs. fetched = Inr pairs \<and> filterEligiblePairs cfg now pairs = [])))
   \<and> (\<forall>b. b \<noteq> addr \<longrightarrow>
        (b \<in> tokenUniverseManager (snd (service_updateTokenEligibility cfg now fetched addr svc))
           \<longleftrightarrow> b \<in> tokenUniverseManager svc))"
proof -
  let ?tracked' = "tokenUniverseManager (snd (service_updateTokenEligibility cfg now fetched addr svc))"
  have removed: "addr \<notin> ?tracked' \<longleftrightarrow> (\<exists>pairs. fetched = Inr pairs \<and> filterEligiblePairs cfg now pairs = [])"
    if "addr \<in> tokenUniverseManager svc"
  proof (cases fetched)
    case (Inl err)
    with that show ?thesis by (simp add: service_update_tracked)
  next
    case (Inr pairs)
    with that show ?thesis by (simp add: service_update_tracked)
  qed
  have others: "b \<in> ?tracked' \<longleftrightarrow> b \<in> tokenUniverseManager svc" if "b \<noteq> addr" for b
  proof (cases fetched)
    case (Inl err)
    then show ?thesis by (simp add: service_update_tracked)
  next
    case (Inr pairs)
    with that show ?thesis by (simp add: service_update_tracked)
  qed
  from removed others show ?thesis
    by (simp add: service_update_frame revalidateTokens_frame)
qed

theorem revalidation_touches_membership_only_witness:
  "''tok'' \<in> tokenUniverseManager exampleService
   \<and> ''tok'' \<notin> tokenUniverseManager
        (snd (service_updateTokenEligibility exampleConfig 3600000 (Inr [thinPair]) ''tok'' exampleService))
   \<and> ''other'' \<in> tokenUniverseManager
        (snd (service_updateTokenEligibility exampleConfig 3600000 (Inr [thinPair]) ''tok'' exampleService))
   \<and> tokenStateManager
        (snd (service_updateTokenEligibility exampleConfig 3600000 (Inr [thinPair]) ''tok'' exampleService))
       = quietTokens
   \<and> ''tok'' \<in> tokenUniverseManager
        (snd (service_updateTokenEligibility exampleConfig 3600000 (Inl (FetchError ''timeout'')) ''tok'' exampleService))"
proof -
  have el: "filterEligiblePairs exampleConfig 3600000 [thinPair] = []"
    by (simp add: filterEligiblePairs_def thinPair_def spikePair_sel orZero_def exampleConfig_def
          isFromPumpOrBonk_def spikePair_source)
  have tr: "''tok'' \<in> tokenUniverseManager exampleService" "''other'' \<in> tokenUniverseManager exampleService"
    "''other'' \<noteq> ''tok''" "tokenStateManager exampleService = quietTokens"
    by (simp_all add: exampleService_def)
  note t = revalidation_touches_membership_only [of exampleConfig 3600000 "Inr [thinPair]" "''tok''"
      exampleService "\<lambda>_. Inr [thinPair]" "[]"]
  note u = revalidation_touches_membership_only [of exampleConfig 3600000 "Inl (FetchError ''timeout'')" "''tok''"
      exampleService "\<lambda>_. Inr [thinPair]" "[]"]
  have 1: "''tok'' \<notin> tokenUniverseManager
        (snd (service_updateTokenEligibility exampleConfig 3600000 (Inr [thinPair]) ''tok'' exampleService))"
    using t [THEN conjunct2, THEN conjunct2, THEN conjunct1] tr(1) el by simp
  have 2: "''other'' \<in> tokenUniverseManager
        (snd (service_updateTokenEligibility exampleConfig 3600000 (Inr [thinPair]) ''tok'' exampleService))"
    using t [THEN conjunct2, THEN conjunct2, THEN conjunct2, rule_format, of "''other''"] tr(2,3) by simp
  have 3: "tokenStateManager
        (snd (service_updateTokenEligibility exampleConfig 3600000 (Inr [thinPair]) ''tok'' exampleService))
       = quietTokens"
    using t [THEN conjunct1] tr(4) by simp
  have 4: "''tok'' \<in> tokenUniverseManager
        (snd (service_updateTokenEligibility exampleConfig 3600000 (Inl (FetchError ''timeout'')) ''tok'' exampleService))"
    using u [THEN conjunct2, THEN conjunct2, THEN conjunct1] tr(1) by simp
  from tr(1) 1 2 3 4 show ?thesis by (intro conjI)
qed

end
